theory Spec2Isabelle
  imports Complex_Main "HOL-Library.Word"
begin

section \<open>JavaScript strings\<close>

text \<open>
  A JavaScript string is a sequence of UTF-16 code units: \<open>length\<close>, \<open>substring\<close>,
  \<open>startsWith\<close>, \<open>endsWith\<close> and the regular expressions of the source (none has the
  \<open>u\<close> flag) all count and compare code units. ASCII literals of the source are written
  through \<open>u16\<close>.
\<close>

type_synonym code_unit = "16 word"
type_synonym jsstring = "code_unit list"

definition u16 :: "string \<Rightarrow> jsstring" where
  "u16 s = map of_char s"

definition nl :: code_unit where
  "nl = 0x0A"

definition is_space :: "code_unit \<Rightarrow> bool" where
  \<comment> \<open>the class \<open>\s\<close> of a regular expression, also what \<open>trim\<close> removes:
      WhiteSpace and LineTerminator of ECMAScript\<close>
  "is_space c \<longleftrightarrow>
     c \<in> {0x09, 0x0A, 0x0B, 0x0C, 0x0D, 0x20, 0xA0, 0x1680, 0x2028, 0x2029, 0x202F, 0x205F,
          0x3000, 0xFEFF}
     \<or> (0x2000 \<le> c \<and> c \<le> 0x200A)"

definition starts_with :: "jsstring \<Rightarrow> jsstring \<Rightarrow> bool" where
  \<comment> \<open>\<open>s.startsWith(p)\<close>\<close>
  "starts_with s p \<longleftrightarrow> take (length p) s = p"


definition substring0 :: "nat \<Rightarrow> jsstring \<Rightarrow> jsstring" where
  \<comment> \<open>\<open>s.substring(0, n)\<close>: the first \<open>n\<close> code units, the whole string when it is shorter\<close>
  "substring0 n s = take n s"


fun join :: "jsstring \<Rightarrow> jsstring list \<Rightarrow> jsstring" where
  \<comment> \<open>\<open>xs.join(sep)\<close> on an array of strings\<close>
  "join sep [] = []"
| "join sep [x] = x"
| "join sep (x # y # ys) = x @ sep @ join sep (y # ys)"

section \<open>Code-fence stripping (route.ts, lines 65 and 82)\<close>

text \<open>
  \<^verbatim>\<open>content.replace(/^```json\s*\n?/, '').replace(/\n?```\s*$/, '')\<close>

  Neither expression has a flag, so \<open>^\<close> and \<open>$\<close> are the two ends of the input and only
  the leftmost match is replaced.

  The first expression can only match at index 0: the seven units \<open>```json\<close>, then the
  longest run of white space (\<open>\s*\<close> is greedy and \<open>\n\<close> is white space, so the final
  \<open>\n?\<close> always matches the empty string).

  The second expression is tried at every index from the left. At one index it matches when
  an optional line feed, three backquotes and white space up to the end of the input follow;
  the match then reaches the end of the input, so the replacement keeps what precedes it.
\<close>

definition fence_open :: jsstring where
  "fence_open = u16 ''```json''"

definition fence :: jsstring where
  "fence = u16 ''```''"

definition strip_open :: "jsstring \<Rightarrow> jsstring" where
  "strip_open s =
     (if starts_with s fence_open then dropWhile is_space (drop (length fence_open) s) else s)"

definition fence_to_end :: "jsstring \<Rightarrow> bool" where
  \<comment> \<open>\<open>```\s*$\<close> matched at the head of the input\<close>
  "fence_to_end t \<longleftrightarrow> starts_with t fence \<and> list_all is_space (drop (length fence) t)"

definition close_match :: "jsstring \<Rightarrow> bool" where
  \<comment> \<open>\<open>\n?```\s*$\<close> matched at the head of the input: first with the line feed taken,
      then without\<close>
  "close_match t \<longleftrightarrow> (t \<noteq> [] \<and> hd t = nl \<and> fence_to_end (tl t)) \<or> fence_to_end t"

fun strip_close :: "jsstring \<Rightarrow> jsstring" where
  "strip_close [] = []"
| "strip_close (c # cs) = (if close_match (c # cs) then [] else c # strip_close cs)"

definition strip_fences :: "jsstring \<Rightarrow> jsstring" where
  "strip_fences content = strip_close (strip_open content)"

section \<open>Values decoded from JSON\<close>

datatype jsnum =
    Finite real    \<comment> \<open>a finite double other than negative zero, by its value\<close>
  | NegZero        \<comment> \<open>\<open>-0\<close>\<close>
  | Infinity       \<comment> \<open>what a JSON number too large for a double decodes to, as \<open>1e400\<close>\<close>
  | NegInfinity

datatype jsval =
    JUndefined
  | JNull
  | JBool bool
  | JNum jsnum
  | JStr jsstring
  | JArr "jsval list"
  | JObj "(jsstring \<times> jsval) list"

text \<open>
  \<open>JNum\<close> carries the decoded double; \<open>NaN\<close> is left out, no JSON text decodes to it.
  The text of a number in a template literal is a parameter of the model.
  \<open>JUndefined\<close> is what reading an absent property gives; JSON text never decodes to it.
\<close>

datatype exn =
    ErrorObj jsstring   \<comment> \<open>a thrown instance of \<open>Error\<close>, with its \<open>message\<close>\<close>
  | Thrown              \<comment> \<open>any other thrown value\<close>

datatype site =
    Destructure_body    \<comment> \<open>line 28: \<open>const { ticket, attachments } = body\<close>\<close>
  | Read_text           \<comment> \<open>line 42: \<open>att.text\<close> on \<open>null\<close>\<close>
  | Call_substring      \<comment> \<open>line 42: \<open>att.text.substring\<close> on a value that is no string\<close>
  | To_primitive        \<comment> \<open>line 43: the template literal on a value that has no text\<close>

fun truthy :: "jsval \<Rightarrow> bool" where
  "truthy JUndefined = False"
| "truthy JNull = False"
| "truthy (JBool b) = b"
| "truthy (JNum n) = (n \<noteq> Finite 0 \<and> n \<noteq> NegZero)"
| "truthy (JStr s) = (s \<noteq> [])"
| "truthy (JArr xs) = True"
| "truthy (JObj kvs) = True"

fun js_typeof :: "jsval \<Rightarrow> jsstring" where
  "js_typeof JUndefined = u16 ''undefined''"
| "js_typeof JNull = u16 ''object''"
| "js_typeof (JBool b) = u16 ''boolean''"
| "js_typeof (JNum r) = u16 ''number''"
| "js_typeof (JStr s) = u16 ''string''"
| "js_typeof (JArr xs) = u16 ''object''"
| "js_typeof (JObj kvs) = u16 ''object''"

fun isArray :: "jsval \<Rightarrow> bool" where
  "isArray (JArr xs) = True"
| "isArray v = False"

fun member :: "jsval \<Rightarrow> jsstring \<Rightarrow> jsval" where
  \<comment> \<open>\<open>v.k\<close> for a value other than \<open>null\<close> and \<open>undefined\<close>, and for the names the source
      reads (\<open>ticket\<close>, \<open>attachments\<close>, \<open>text\<close>, \<open>name\<close>, \<open>mime\<close>): none of them is a property
      of a string, number, boolean or array, nor inherited by an object\<close>
  "member (JObj kvs) k = (case map_of kvs k of Some v \<Rightarrow> v | None \<Rightarrow> JUndefined)"
| "member v k = JUndefined"

fun to_string :: "(jsnum \<Rightarrow> jsstring) \<Rightarrow> jsval \<Rightarrow> jsstring option" where
  \<comment> \<open>the text of a value inside a template literal, \<open>None\<close> when the conversion throws a
      \<open>TypeError\<close>: an object with an own property \<open>toString\<close> (no decoded value is
      callable, and the inherited \<open>valueOf\<close> gives the object back). The text of a number
      is a parameter. An array is the texts of its elements joined by commas, \<open>null\<close> and
      \<open>undefined\<close> elements being empty.\<close>
  "to_string nts JUndefined = Some (u16 ''undefined'')"
| "to_string nts JNull = Some (u16 ''null'')"
| "to_string nts (JBool b) = Some (if b then u16 ''true'' else u16 ''false'')"
| "to_string nts (JNum n) = Some (nts n)"
| "to_string nts (JStr s) = Some s"
| "to_string nts (JArr xs) =
     map_option (join (u16 '',''))
       (those (map (\<lambda>x. if x = JNull \<or> x = JUndefined then Some [] else to_string nts x) xs))"
| "to_string nts (JObj kvs) =
     (if u16 ''toString'' \<in> set (map fst kvs) then None else Some (u16 ''[object Object]''))"

fun NextResponse_json :: "jsval \<Rightarrow> jsval" where
  \<comment> \<open>\<open>NextResponse.json({ analysis })\<close>, line 86: the body is the text \<open>JSON.stringify\<close>
      writes, given here by the value of \<open>analysis\<close> a client decodes from it. A number
      that is not finite is written \<open>null\<close>, negative zero is written \<open>0\<close>, an
      \<open>undefined\<close> element of an array is written \<open>null\<close> and an \<open>undefined\<close> property is
      left out.\<close>
  "NextResponse_json (JNum n) =
     (case n of Finite r \<Rightarrow> JNum (Finite r) | NegZero \<Rightarrow> JNum (Finite 0) | _ \<Rightarrow> JNull)"
| "NextResponse_json (JArr xs) =
     JArr (map (\<lambda>x. if x = JUndefined then JNull else NextResponse_json x) xs)"
| "NextResponse_json (JObj kvs) =
     JObj (map (\<lambda>kv. (fst kv, NextResponse_json (snd kv)))
             (filter (\<lambda>kv. snd kv \<noteq> JUndefined) kvs))"
| "NextResponse_json v = v"

fun json_plain :: "jsval \<Rightarrow> bool" where
  \<comment> \<open>every number in the value is finite and not negative zero, and nothing inside it
      is \<open>undefined\<close>\<close>
  "json_plain (JNum n) = (case n of Finite r \<Rightarrow> True | _ \<Rightarrow> False)"
| "json_plain (JArr xs) = list_all (\<lambda>x. x \<noteq> JUndefined \<and> json_plain x) xs"
| "json_plain (JObj kvs) = list_all (\<lambda>kv. snd kv \<noteq> JUndefined \<and> json_plain (snd kv)) kvs"
| "json_plain v = True"

section \<open>The analyze endpoint (route.ts, \<open>POST\<close>)\<close>

definition SYSTEM_PROMPT :: jsstring where
  \<open>SYSTEM_PROMPT =
     u16 ''You are a security incident analyst.\<newline>'' @
     u16 ''Return ONLY valid JSON matching this type:\<newline>'' @
     u16 ''{\<newline>'' @
     u16 ''  "csf": { "Identify": string[], "Protect": string[], "Detect": string[], "Respond": string[], "Recover": string[] },\<newline>'' @
     u16 ''  "timeline": { "time"?: string, "event": string }[],\<newline>'' @
     u16 ''  "severity": "Low" | "Medium" | "High" | "Critical",\<newline>'' @
     u16 ''  "root_cause": string,\<newline>'' @
     u16 ''  "impacted_assets": string[],\<newline>'' @
     u16 ''  "mitre"?: string[],\<newline>'' @
     u16 ''  "nist_800_53"?: string[],\<newline>'' @
     u16 ''  "customer_safe_summary": string,\<newline>'' @
     u16 ''  "actions": { "title": string, "owner"?: string, "priority"?: "P1"|"P2"|"P3", "due_window"?: string }[]\<newline>'' @
     u16 ''}\<newline>'' @
     u16 ''Guidelines:\<newline>'' @
     u16 ''- Build a concise timeline (use timestamps if present).\<newline>'' @
     u16 ''- State likely root cause and severity with a one-sentence justification.\<newline>'' @
     u16 ''- Map to NIST CSF with 3'' @ [0x2013] @ u16 ''6 concise bullets per function, and include relevant NIST 800-53 control IDs (e.g., AC-2, IA-2, AU-6, IR-4, CP-2).\<newline>'' @
     u16 ''- Include 5'' @ [0x2013] @ u16 ''10 concrete follow-up actions.\<newline>'' @
     u16 ''- Audience for customer_safe_summary is non-technical.\<newline>'' @
     u16 ''- Output JSON only, no prose.''\<close>

record chat_request =
  model :: jsstring
  temperature :: real
  system_content :: jsstring
  user_content :: jsstring

text \<open>
  What the handler depends on and does not define. \<open>create\<close> is
  \<open>client.chat.completions.create\<close> followed by the read of
  \<open>resp.choices[0]?.message?.content\<close>: it threads the state \<open>'s\<close> of the service, and
  gives \<open>Inl\<close> when the call rejects or the read throws, \<open>Inr None\<close> when the content is
  absent, \<open>Inr (Some s)\<close> otherwise. \<open>JSON_parse\<close> gives \<open>Inl\<close> the message of the
  \<open>SyntaxError\<close> it throws.
\<close>

record 's env =
  OPENAI_API_KEY :: "jsstring option"
  create :: "'s \<Rightarrow> chat_request \<Rightarrow> (exn + jsstring option) \<times> 's"
  JSON_parse :: "jsstring \<Rightarrow> jsstring + jsval"
  number_text :: "jsnum \<Rightarrow> jsstring"
  type_error :: "site \<Rightarrow> jsval \<Rightarrow> jsstring"

datatype body =
    ErrorBody jsstring    \<comment> \<open>\<open>{ error }\<close>\<close>
  | AnalysisBody jsval    \<comment> \<open>\<open>{ analysis }\<close>, as a client decodes it\<close>

datatype response = Response (status: nat) (payload: body)

type_synonym 's world = "chat_request list \<times> 's"
  \<comment> \<open>the calls issued to the service so far, in order, and the state of the service\<close>

definition call :: "'s env \<Rightarrow> 's world \<Rightarrow> chat_request \<Rightarrow> (exn + jsstring option) \<times> 's world" where
  "call e w rq = (case create e (snd w) rq of (out, s') \<Rightarrow> (out, (fst w @ [rq], s')))"

definition or_empty :: "jsstring option \<Rightarrow> jsstring" where
  \<comment> \<open>\<open>x || ''\<close> on a string that may be absent\<close>
  "or_empty x = (case x of None \<Rightarrow> [] | Some s \<Rightarrow> s)"

definition MAX_TICKET :: nat where
  "MAX_TICKET = 10000"

definition MAX_ATTACHMENT :: nat where
  "MAX_ATTACHMENT = 6000"

definition attachment_segment :: "'s env \<Rightarrow> jsval \<Rightarrow> exn + jsstring" where
  \<comment> \<open>lines 42 and 43, for one element of the array\<close>
  "attachment_segment e att =
     (if att = JNull \<or> att = JUndefined then Inl (ErrorObj (type_error e Read_text att))
      else case member att (u16 ''text'') of
        JStr t \<Rightarrow>
          (case to_string (number_text e) (member att (u16 ''name'')) of
             None \<Rightarrow> Inl (ErrorObj (type_error e To_primitive (member att (u16 ''name''))))
           | Some name \<Rightarrow>
               (case to_string (number_text e) (member att (u16 ''mime'')) of
                  None \<Rightarrow> Inl (ErrorObj (type_error e To_primitive (member att (u16 ''mime''))))
                | Some mime \<Rightarrow>
                    Inr (u16 ''ATTACHMENT: '' @ name @ u16 '' ('' @ mime @ u16 '')\<newline>'' @
                         substring0 MAX_ATTACHMENT t @ u16 ''\<newline>\<newline>'')))
      | v \<Rightarrow> Inl (ErrorObj (type_error e Call_substring v)))"

fun add_attachments :: "'s env \<Rightarrow> jsstring \<Rightarrow> jsval list \<Rightarrow> exn + jsstring" where
  \<comment> \<open>the loop of lines 41 to 44: the first throw leaves it\<close>
  "add_attachments e userPrompt [] = Inr userPrompt"
| "add_attachments e userPrompt (att # atts) =
     (case attachment_segment e att of
        Inl x \<Rightarrow> Inl x
      | Inr seg \<Rightarrow> add_attachments e (userPrompt @ seg) atts)"

fun elements :: "jsval \<Rightarrow> jsval list" where
  "elements (JArr xs) = xs"
| "elements v = []"

definition build_prompt :: "'s env \<Rightarrow> jsstring \<Rightarrow> jsval \<Rightarrow> exn + jsstring" where
  \<comment> \<open>lines 38 to 45\<close>
  "build_prompt e ticket attachments =
     (let userPrompt = u16 ''TICKET:\<newline>'' @ ticket @ u16 ''\<newline>\<newline>'' in
      if truthy attachments \<and> isArray attachments
      then add_attachments e userPrompt (elements attachments)
      else Inr userPrompt)"

definition primary_request :: "jsstring \<Rightarrow> chat_request" where
  "primary_request userPrompt =
     \<lparr>model = u16 ''gpt-4o-mini'', temperature = 2 / 10,
      system_content = SYSTEM_PROMPT, user_content = userPrompt\<rparr>"

definition fix_request :: "jsstring \<Rightarrow> chat_request" where
  "fix_request content =
     \<lparr>model = u16 ''gpt-4o-mini'', temperature = 1 / 10,
      system_content = u16 ''Fix malformed JSON. Output ONLY valid JSON.'',
      user_content = u16 ''Fix this JSON:\<newline>'' @ content\<rparr>"

definition run_extraction :: "'s env \<Rightarrow> 's world \<Rightarrow> jsstring \<Rightarrow> (exn + response) \<times> 's world" where
  \<comment> \<open>lines 54 to 86\<close>
  "run_extraction e w userPrompt =
     (case call e w (primary_request userPrompt) of
        (Inl x, w1) \<Rightarrow> (Inl x, w1)
      | (Inr resp, w1) \<Rightarrow>
          (let content = strip_fences (or_empty resp) in
           case JSON_parse e content of
             Inr analysis \<Rightarrow> (Inr (Response 200 (AnalysisBody (NextResponse_json analysis))), w1)
           | Inl parseError \<Rightarrow>
               (case call e w1 (fix_request content) of
                  (Inl x, w2) \<Rightarrow> (Inl x, w2)
                | (Inr fixResp, w2) \<Rightarrow>
                    (let fixedContent = strip_fences (or_empty fixResp) in
                     case JSON_parse e fixedContent of
                       Inr analysis \<Rightarrow>
                         (Inr (Response 200 (AnalysisBody (NextResponse_json analysis))), w2)
                     | Inl m \<Rightarrow> (Inl (ErrorObj m), w2)))))"

definition POST_try :: "'s env \<Rightarrow> 's world \<Rightarrow> exn + jsval \<Rightarrow> (exn + response) \<times> 's world" where
  \<comment> \<open>the \<open>try\<close> block, lines 27 to 86; the argument is the outcome of
      \<open>await request.json()\<close>\<close>
  "POST_try e w decoded =
     (case decoded of
        Inl x \<Rightarrow> (Inl x, w)
      | Inr body \<Rightarrow>
          if body = JNull \<or> body = JUndefined
          then (Inl (ErrorObj (type_error e Destructure_body body)), w)
          else
            let ticket = member body (u16 ''ticket'');
                attachments = member body (u16 ''attachments'')
            in
              if \<not> truthy ticket \<or> js_typeof ticket \<noteq> u16 ''string''
              then (Inr (Response 400 (ErrorBody (u16 ''Invalid ticket description''))), w)
              else
                (case ticket of
                   JStr t \<Rightarrow>
                     if length t > MAX_TICKET
                     then (Inr (Response 400 (ErrorBody (u16 ''Ticket description too long''))), w)
                     else
                       (case build_prompt e t attachments of
                          Inl x \<Rightarrow> (Inl x, w)
                        | Inr userPrompt \<Rightarrow>
                            if or_empty (OPENAI_API_KEY e) = []
                            then (Inr (Response 500
                                         (ErrorBody (u16 ''OpenAI API key not configured''))), w)
                            else run_extraction e w userPrompt)
                 | _ \<Rightarrow> (Inl Thrown, w)))"
  \<comment> \<open>the last branch is never taken: past the first test, \<open>ticket\<close> is a string\<close>

definition POST :: "'s env \<Rightarrow> 's world \<Rightarrow> exn + jsval \<Rightarrow> response \<times> 's world" where
  \<comment> \<open>the handler: the \<open>catch\<close> of lines 87 to 93 turns every throw into a 500 response\<close>
  "POST e w decoded =
     (case POST_try e w decoded of
        (Inr r, w') \<Rightarrow> (r, w')
      | (Inl x, w') \<Rightarrow>
          (Response 500
             (ErrorBody (case x of ErrorObj m \<Rightarrow> m | Thrown \<Rightarrow> u16 ''Analysis failed'')), w'))"

section \<open>Well-formed UTF-16\<close>

definition is_high_surrogate :: "code_unit \<Rightarrow> bool" where
  "is_high_surrogate c \<longleftrightarrow> 0xD800 \<le> c \<and> c \<le> 0xDBFF"

definition is_low_surrogate :: "code_unit \<Rightarrow> bool" where
  "is_low_surrogate c \<longleftrightarrow> 0xDC00 \<le> c \<and> c \<le> 0xDFFF"

fun well_formed :: "jsstring \<Rightarrow> bool" where
  \<comment> \<open>every high surrogate is followed by a low one, and every low one follows a high one\<close>
  "well_formed [] = True"
| "well_formed [c] = (\<not> is_high_surrogate c \<and> \<not> is_low_surrogate c)"
| "well_formed (c # d # cs) =
     (if is_high_surrogate c then is_low_surrogate d \<and> well_formed cs
      else \<not> is_low_surrogate c \<and> well_formed (d # cs))"

section \<open>The page (page.tsx): normalising the uploaded files, \<open>handleAnalyze\<close>\<close>


record attachment =
  att_name :: jsstring
  att_mime :: jsstring
  att_text :: jsstring









definition attachment_json :: "attachment \<Rightarrow> jsval" where
  "attachment_json a =
     JObj [(u16 ''name'', JStr (att_name a)), (u16 ''mime'', JStr (att_mime a)),
           (u16 ''text'', JStr (att_text a))]"

definition request_body :: "jsstring \<Rightarrow> attachment list \<Rightarrow> jsval" where
  \<comment> \<open>what the endpoint decodes from \<open>JSON.stringify({ ticket, attachments })\<close>\<close>
  "request_body ticket atts =
     JObj [(u16 ''ticket'', JStr ticket), (u16 ''attachments'', JArr (map attachment_json atts))]"


section \<open>The page: the two exports\<close>

datatype severity = Low | Medium | High | Critical

datatype priority = P1 | P2 | P3

record csf_findings =
  Identify :: "jsstring list"
  Protect :: "jsstring list"
  Detect :: "jsstring list"
  Respond :: "jsstring list"
  Recover :: "jsstring list"

record timeline_entry =
  time :: "jsstring option"
  event :: jsstring

record action =
  title :: jsstring
  owner :: "jsstring option"
  priority :: "priority option"
  due_window :: "jsstring option"

record analysis =
  csf :: csf_findings
  timeline :: "timeline_entry list"
  severity :: severity
  root_cause :: jsstring
  impacted_assets :: "jsstring list"
  mitre :: "jsstring list option"
  nist_800_53 :: "jsstring list option"
  customer_safe_summary :: jsstring
  actions :: "action list"

fun priority_text :: "priority \<Rightarrow> jsstring" where
  "priority_text P1 = u16 ''P1''"
| "priority_text P2 = u16 ''P2''"
| "priority_text P3 = u16 ''P3''"

definition dq :: code_unit where
  \<comment> \<open>the double quote\<close>
  "dq = 0x22"

definition csv_cells :: "analysis \<Rightarrow> jsstring list list" where
  \<comment> \<open>lines 249 to 256: the array of rows before it is rendered\<close>
  "csv_cells r =
     [u16 ''Title'', u16 ''Owner'', u16 ''Priority'', u16 ''Due Window''] #
     map (\<lambda>a. [title a, or_empty (owner a),
                or_empty (map_option priority_text (priority a)),
                or_empty (due_window a)]) (actions r)"

definition downloadCSV :: "analysis option \<Rightarrow> jsstring option" where
  \<comment> \<open>lines 247 to 259: the text of the blob, \<open>None\<close> when there is no analysis\<close>
  "downloadCSV state =
     (case state of
        None \<Rightarrow> None
      | Some r \<Rightarrow>
          Some (join [nl] (map (\<lambda>row. join (u16 '','') (map (\<lambda>cell. [dq] @ cell @ [dq]) row))
                            (csv_cells r))))"

definition margin :: real where
  "margin = 15"

definition imgWidth :: real where
  "imgWidth = 210 - margin * 2"

definition pageHeight :: real where
  "pageHeight = 297 - margin * 2"

function more_pages :: "real \<Rightarrow> real \<Rightarrow> real list" where
  \<comment> \<open>the loop of lines 328 to 333: the \<open>position\<close> of the image on each page it adds\<close>
  "more_pages imgHeight heightLeft =
     (if heightLeft \<ge> 0
      then (margin - (imgHeight - heightLeft)) # more_pages imgHeight (heightLeft - pageHeight)
      else [])"
  by pat_completeness auto
termination
  by (relation "measure (\<lambda>(i, h). nat (\<lfloor>h\<rfloor> + 1))") (auto simp: pageHeight_def margin_def)

declare more_pages.simps [simp del]

definition downloadPDF_pages :: "nat \<Rightarrow> nat \<Rightarrow> real list option" where
  \<comment> \<open>lines 315 to 333, from \<open>canvas.width\<close> and \<open>canvas.height\<close>: the \<open>position\<close> of the image
      on every page of the document, in order. A canvas of width 0 makes the scaled height
      no finite number and is left out.\<close>
  "downloadPDF_pages cw ch =
     (if cw = 0 then None
      else
        let imgHeight = (real ch * imgWidth) / real cw;
            heightLeft = imgHeight - pageHeight
        in Some (margin # more_pages imgHeight heightLeft))"

section \<open>The delimited-text export in the words of the specification\<close>

text \<open>
  The specification (4.5) words the export as one header row (Title, Owner, Priority, Due
  Window) followed by one row per action, each field individually quote-escaped, an empty
  optional field being the empty string. \<open>spec_csv\<close> follows these words, not the source:
  a field is quote-escaped when it is enclosed in double quotes and every double quote inside
  it is doubled. It is compared with \<open>downloadCSV\<close> below.
\<close>

definition quote_escaped :: "jsstring \<Rightarrow> jsstring" where
  "quote_escaped cell = [dq] @ concat (map (\<lambda>c. if c = dq then [dq, dq] else [c]) cell) @ [dq]"

definition spec_action_row :: "action \<Rightarrow> jsstring list" where
  "spec_action_row a =
     [title a,
      (case owner a of None \<Rightarrow> [] | Some s \<Rightarrow> s),
      (case priority a of None \<Rightarrow> [] | Some P1 \<Rightarrow> u16 ''P1'' | Some P2 \<Rightarrow> u16 ''P2''
       | Some P3 \<Rightarrow> u16 ''P3''),
      (case due_window a of None \<Rightarrow> [] | Some s \<Rightarrow> s)]"

definition spec_csv :: "analysis \<Rightarrow> jsstring" where
  "spec_csv r =
     join [nl] (map (\<lambda>row. join (u16 '','') (map quote_escaped row))
                  ([u16 ''Title'', u16 ''Owner'', u16 ''Priority'', u16 ''Due Window''] #
                   map spec_action_row (actions r)))"

definition plain_action :: "action \<Rightarrow> bool" where
  \<comment> \<open>no field of the action holds a double quote\<close>
  "plain_action a \<longleftrightarrow>
     dq \<notin> set (title a) \<and> dq \<notin> set (or_empty (owner a)) \<and> dq \<notin> set (or_empty (due_window a))"

section \<open>Sample inputs for concrete runs\<close>

text \<open>
  The instances of the theorems below run the handler against a service that gives the
  \<open>n\<close>-th scripted reply to the \<open>n\<close>-th call (and rejects once the script is used up),
  and against a parser that decodes the texts \<open>{}\<close> and \<open>{"a": 1e400}\<close> as \<open>JSON.parse\<close>
  does and accepts no other.
\<close>

definition scripted :: "jsstring option list \<Rightarrow> nat \<Rightarrow> chat_request \<Rightarrow> (exn + jsstring option) \<times> nat" where
  "scripted replies n rq = (if n < length replies then Inr (replies ! n) else Inl Thrown, Suc n)"

definition sample_parse :: "jsstring \<Rightarrow> jsstring + jsval" where
  \<open>sample_parse s =
     (if s = u16 ''{}'' then Inr (JObj [])
      else if s = u16 ''{"a": 1e400}'' then Inr (JObj [(u16 ''a'', JNum Infinity)])
      else Inl (u16 ''Unexpected token''))\<close>

definition sample_env :: "jsstring option list \<Rightarrow> nat env" where
  "sample_env replies =
     \<lparr>OPENAI_API_KEY = Some (u16 ''sk-1''), create = scripted replies, JSON_parse = sample_parse,
      number_text = (\<lambda>r. u16 ''0''), type_error = (\<lambda>s v. u16 ''TypeError'')\<rparr>"

definition sample_ticket :: jsstring where
  "sample_ticket = u16 ''Suspicious login from new country followed by mass file download''"

definition sample_report :: "action list \<Rightarrow> analysis" where
  "sample_report as =
     \<lparr>csf = \<lparr>Identify = [], Protect = [], Detect = [], Respond = [], Recover = []\<rparr>,
      timeline = [], severity = High, root_cause = u16 ''Stolen credentials'',
      impacted_assets = [], mitre = None, nist_800_53 = None,
      customer_safe_summary = u16 ''An account was misused.'', actions = as\<rparr>"






definition bq :: code_unit where
  \<comment> \<open>the backquote\<close>
  "bq = 0x60"

section \<open>Properties of the code-fence stripping\<close>

lemma fence_units: "fence = [bq, bq, bq]"
  by (simp add: fence_def u16_def bq_def)

lemma fence_open_units: "fence_open = [bq, bq, bq, 0x6A, 0x73, 0x6F, 0x6E]"
  by (simp add: fence_open_def u16_def bq_def)

lemma bq_not_space: "\<not> is_space bq"
  by (simp add: is_space_def bq_def)

lemma nl_is_space: "is_space nl"
  by (simp add: is_space_def nl_def)

lemma nl_not_bq: "nl \<noteq> bq"
  by (simp add: nl_def bq_def)

lemma not_fence_to_end: "3 \<le> length xs \<Longrightarrow> \<not> fence_to_end (xs @ bq # ys)"
  by (simp add: fence_to_end_def fence_units bq_not_space)

lemma fence_to_end_closing: "list_all is_space ws \<Longrightarrow> fence_to_end (fence @ ws)"
  by (simp add: fence_to_end_def starts_with_def)

lemma strip_close_closing:
  assumes "list_all is_space ws"
  shows "strip_close (p @ nl # fence @ ws) = p"
proof (induction p)
  case Nil
  have "close_match (nl # fence @ ws)"
    using fence_to_end_closing [OF assms] by (simp add: close_match_def)
  then show ?case by simp
next
  case (Cons c p)
  have a: "\<not> fence_to_end ((c # p @ [nl, bq, bq]) @ bq # ws)"
    by (rule not_fence_to_end) simp
  have b: "\<not> fence_to_end ((p @ [nl, bq, bq]) @ bq # ws)"
    by (rule not_fence_to_end) simp
  from a b have "\<not> close_match (c # p @ nl # fence @ ws)"
    by (simp add: close_match_def fence_units)
  with Cons.IH show ?case by simp
qed

lemma strip_close_fence_only: "list_all is_space ws \<Longrightarrow> strip_close (fence @ ws) = []"
  using fence_to_end_closing [of ws] by (simp add: close_match_def fence_units)

lemma dropWhile_all: "list_all P ws \<Longrightarrow> dropWhile P (ws @ t) = dropWhile P t"
  by (induction ws) simp_all

lemma strip_open_fenced:
  "list_all is_space ws \<Longrightarrow> strip_open (fence_open @ ws @ t) = dropWhile is_space t"
  by (simp add: strip_open_def starts_with_def dropWhile_all)

lemma strip_open_unfenced: "\<not> starts_with s fence_open \<Longrightarrow> strip_open s = s"
  by (simp add: strip_open_def)

lemma strip_close_closing_no_nl:
  assumes "list_all is_space ws" and "p = [] \<or> last p \<noteq> nl"
  shows "strip_close (p @ fence @ ws) = p"
  using assms(2)
proof (induction p)
  case Nil
  show ?case using strip_close_fence_only [OF assms(1)] by simp
next
  case (Cons c p)
  have a: "\<not> fence_to_end ((c # p @ [bq, bq]) @ bq # ws)"
    by (rule not_fence_to_end) simp
  have b: "\<not> (c = nl \<and> fence_to_end (p @ fence @ ws))"
  proof (cases p)
    case Nil
    with Cons.prems show ?thesis by simp
  next
    case (Cons d q)
    have "\<not> fence_to_end ((p @ [bq, bq]) @ bq # ws)"
      by (rule not_fence_to_end) (simp add: Cons)
    then show ?thesis by (simp add: fence_units)
  qed
  from a b have "\<not> close_match (c # p @ fence @ ws)"
    by (simp add: close_match_def fence_units)
  moreover from Cons.prems have "p = [] \<or> last p \<noteq> nl"
    by (auto split: if_splits)
  ultimately show ?case using Cons.IH by simp
qed

text \<open>
  Claim C4, as amended. A response made of the opening fence \<open>```json\<close>, any white space,
  a payload that does not begin with white space, one line feed or none (none only when the
  payload does not end in a line feed), the closing fence \<open>```\<close> and any trailing white
  space is stripped to exactly the payload, which is what is then parsed. From a response
  that does not begin with \<open>```json\<close> and ends in a line feed, the closing fence and white
  space, that ending alone is removed: an opening fence without the tag stays.
\<close>

theorem json_fence_stripped_to_payload:
  assumes ws: "list_all is_space ws" and ws': "list_all is_space ws'"
    and p: "p = [] \<or> \<not> is_space (hd p)"
    and lf: "lf = [nl] \<or> lf = [] \<and> (p = [] \<or> last p \<noteq> nl)"
  shows "strip_fences (fence_open @ ws @ p @ lf @ fence @ ws') = p \<and>
         (\<not> starts_with (q @ nl # fence @ ws') fence_open \<longrightarrow>
            strip_fences (q @ nl # fence @ ws') = q)"
proof
  have closing: "strip_close (p @ lf @ fence @ ws') = p"
    using lf strip_close_closing [OF ws', of p] strip_close_closing_no_nl [OF ws', of p]
    by auto
  show "strip_fences (fence_open @ ws @ p @ lf @ fence @ ws') = p"
  proof (cases p)
    case Nil
    have "dropWhile is_space (lf @ fence @ ws') = fence @ ws'"
      using lf by (auto simp: nl_is_space fence_units bq_not_space)
    with Nil have "strip_open (fence_open @ ws @ p @ lf @ fence @ ws') = fence @ ws'"
      using ws by (simp add: strip_open_fenced)
    then show ?thesis
      using Nil ws' by (simp add: strip_fences_def strip_close_fence_only)
  next
    case (Cons c cs)
    with p have "\<not> is_space c" by simp
    then have "strip_open (fence_open @ ws @ p @ lf @ fence @ ws') = p @ lf @ fence @ ws'"
      using ws Cons by (simp add: strip_open_fenced)
    then show ?thesis
      using closing by (simp add: strip_fences_def)
  qed
  show "\<not> starts_with (q @ nl # fence @ ws') fence_open \<longrightarrow>
          strip_fences (q @ nl # fence @ ws') = q"
    using strip_close_closing [OF ws', of q]
    by (simp add: strip_fences_def strip_open_unfenced)
qed

text \<open>
  Instances of C4: the wrapper of the claim, the same with no line feed before the closing
  fence, and a wrapper whose opening fence has no tag.
\<close>

theorem json_fence_stripped_to_payload_witness:
  \<open>list_all is_space [nl] \<and> \<not> is_space (hd (u16 ''{"a": 1}'')) \<and> last (u16 ''{"a": 1}'') \<noteq> nl \<and>
   \<not> starts_with (u16 ''```\<newline>{"a": 1}\<newline>```'') fence_open \<and>
   strip_fences (u16 ''```json\<newline>{"a": 1}\<newline>```'') = u16 ''{"a": 1}'' \<and>
   strip_fences (u16 ''```json\<newline>{"a": 1}```'') = u16 ''{"a": 1}'' \<and>
   strip_fences (u16 ''```\<newline>{"a": 1}\<newline>```'') = u16 ''```\<newline>{"a": 1}''\<close>
proof -
  let ?p = \<open>u16 ''{"a": 1}''\<close>
  let ?q = \<open>u16 ''```\<newline>{"a": 1}''\<close>
  have a: "list_all is_space [nl]" by (simp add: nl_is_space)
  have b: "list_all is_space []" by simp
  have c: "\<not> is_space (hd ?p)" by (simp add: u16_def is_space_def)
  then have c': "?p = [] \<or> \<not> is_space (hd ?p)" ..
  have d: "last ?p \<noteq> nl" by (simp add: u16_def nl_def)
  then have d': "[] = [nl] \<or> [] = [] \<and> (?p = [] \<or> last ?p \<noteq> nl)" by simp
  have e: "[nl] = [nl] \<or> [nl] = [] \<and> (?p = [] \<or> last ?p \<noteq> nl)" by simp
  have u: "\<not> starts_with (?q @ nl # fence @ []) fence_open"
    by (simp add: starts_with_def fence_open_def fence_def u16_def nl_def)
  from json_fence_stripped_to_payload [OF a b c' e, of ?q] u
  have "strip_fences (fence_open @ [nl] @ ?p @ [nl] @ fence @ []) = ?p"
    and "strip_fences (?q @ nl # fence @ []) = ?q"
    by blast+
  moreover from json_fence_stripped_to_payload [OF a b c' d', of ?q]
  have "strip_fences (fence_open @ [nl] @ ?p @ [] @ fence @ []) = ?p"
    by blast
  ultimately have
    \<open>strip_fences (u16 ''```json\<newline>{"a": 1}\<newline>```'') = ?p\<close>
    \<open>strip_fences (u16 ''```json\<newline>{"a": 1}```'') = ?p\<close>
    \<open>strip_fences (u16 ''```\<newline>{"a": 1}\<newline>```'') = ?q\<close>
    by (simp_all add: fence_open_def fence_def u16_def nl_def)
  moreover have \<open>\<not> starts_with (u16 ''```\<newline>{"a": 1}\<newline>```'') fence_open\<close>
    using u by (simp add: fence_def u16_def nl_def)
  ultimately show ?thesis using a c d by simp
qed

text \<open>
  Claim C4 as stated fails for a fence without the \<open>json\<close> tag: the opening fence stays
  in the text that is parsed.
\<close>

theorem untagged_fence_not_stripped:
  \<open>strip_fences (u16 ''```\<newline>{"a": 1}\<newline>```'') = u16 ''```\<newline>{"a": 1}'' \<and>
   strip_fences (u16 ''```\<newline>{"a": 1}\<newline>```'') \<noteq> u16 ''{"a": 1}''\<close>
  by (simp add: strip_fences_def strip_open_def strip_close.simps close_match_def
      fence_to_end_def starts_with_def fence_open_def fence_def u16_def nl_def is_space_def)

section \<open>Properties of the truncation\<close>

lemma well_formed_plain_Cons:
  "\<not> is_high_surrogate c \<Longrightarrow> well_formed (c # cs) \<longleftrightarrow> \<not> is_low_surrogate c \<and> well_formed cs"
  by (cases cs) simp_all

lemma well_formed_replicate_plain:
  "\<not> is_high_surrogate a \<Longrightarrow> \<not> is_low_surrogate a \<Longrightarrow>
   well_formed (replicate n a @ cs) = well_formed cs"
  by (induction n) (simp_all add: well_formed_plain_Cons)

lemma well_formed_take:
  "well_formed s \<Longrightarrow>
   well_formed (take n s) \<longleftrightarrow> n = 0 \<or> length s \<le> n \<or> \<not> is_high_surrogate (s ! (n - 1))"
proof (induction s arbitrary: n rule: well_formed.induct)
  case 1
  then show ?case by simp
next
  case (2 c)
  then show ?case by (cases n) simp_all
next
  case (3 c d cs)
  show ?case
  proof (cases "is_high_surrogate c")
    case True
    with "3.prems" have d: "is_low_surrogate d" and cs: "well_formed cs" by simp_all
    have dh: "\<not> is_high_surrogate d"
      using d by (simp add: is_high_surrogate_def is_low_surrogate_def word_le_nat_alt)
    show ?thesis
    proof (cases n)
      case 0
      then show ?thesis by simp
    next
      case (Suc k)
      show ?thesis
      proof (cases k)
        case 0
        with Suc True show ?thesis by simp
      next
        case (Suc j)
        have "well_formed (take j cs) \<longleftrightarrow> j = 0 \<or> length cs \<le> j \<or> \<not> is_high_surrogate (cs ! (j - 1))"
          using "3.IH"(1) [OF True cs] .
        with True d dh Suc \<open>n = Suc k\<close> show ?thesis
          by (cases j) simp_all
      qed
    qed
  next
    case False
    with "3.prems" have c: "\<not> is_low_surrogate c" and rest: "well_formed (d # cs)" by simp_all
    show ?thesis
    proof (cases n)
      case 0
      then show ?thesis by simp
    next
      case (Suc k)
      have "well_formed (take k (d # cs)) \<longleftrightarrow>
            k = 0 \<or> length (d # cs) \<le> k \<or> \<not> is_high_surrogate ((d # cs) ! (k - 1))"
        using "3.IH"(2) [OF False rest] .
      with False c Suc show ?thesis
        by (cases k) (simp_all add: well_formed_plain_Cons)
    qed
  qed
qed

text \<open>
  Claim C6, as amended. The text of an attachment is cut after 6,000 UTF-16 code units.
  For a well-formed text the result is well formed exactly when the text has at most 6,000
  units or the unit at index 5,999 is not the first half of a surrogate pair.
\<close>

theorem truncation_well_formed_iff:
  assumes "well_formed t"
  shows "well_formed (substring0 MAX_ATTACHMENT t) \<longleftrightarrow>
         length t \<le> MAX_ATTACHMENT \<or> \<not> is_high_surrogate (t ! (MAX_ATTACHMENT - 1))"
  using well_formed_take [OF assms, of MAX_ATTACHMENT]
  by (simp add: substring0_def MAX_ATTACHMENT_def)

theorem truncation_well_formed_iff_witness:
  "well_formed (replicate 6000 0x61 @ [0xD83D, 0xDE00]) \<and>
   well_formed (substring0 MAX_ATTACHMENT (replicate 6000 0x61 @ [0xD83D, 0xDE00]))"
proof -
  have plain: "\<not> is_high_surrogate 0x61" "\<not> is_low_surrogate 0x61"
    by (simp_all add: is_high_surrogate_def is_low_surrogate_def)
  have wf: "well_formed (replicate 6000 0x61 @ [0xD83D, 0xDE00])"
    by (simp add: well_formed_replicate_plain plain is_high_surrogate_def is_low_surrogate_def)
  have "(replicate 6000 0x61 @ [0xD83D, 0xDE00 :: code_unit]) ! (MAX_ATTACHMENT - 1) = 0x61"
    by (simp add: MAX_ATTACHMENT_def nth_append)
  with truncation_well_formed_iff [OF wf] plain wf show ?thesis by simp
qed

text \<open>
  Claim C6 as stated fails: a well-formed text whose units 5,999 and 6,000 are a surrogate
  pair is cut between the two, and the text put in the prompt ends in a lone high surrogate.
\<close>

theorem truncation_splits_surrogate_pair:
  "well_formed (replicate 5999 0x61 @ [0xD83D, 0xDE00]) \<and>
   substring0 MAX_ATTACHMENT (replicate 5999 0x61 @ [0xD83D, 0xDE00]) =
     replicate 5999 0x61 @ [0xD83D] \<and>
   \<not> well_formed (substring0 MAX_ATTACHMENT (replicate 5999 0x61 @ [0xD83D, 0xDE00]))"
proof -
  have plain: "\<not> is_high_surrogate 0x61" "\<not> is_low_surrogate 0x61"
    by (simp_all add: is_high_surrogate_def is_low_surrogate_def)
  have cut: "substring0 MAX_ATTACHMENT (replicate 5999 0x61 @ [0xD83D, 0xDE00 :: code_unit]) =
             replicate 5999 0x61 @ [0xD83D]"
    by (simp add: substring0_def MAX_ATTACHMENT_def)
  have wf: "well_formed (replicate 5999 0x61 @ [0xD83D, 0xDE00])"
    by (simp add: well_formed_replicate_plain plain is_high_surrogate_def is_low_surrogate_def)
  have "\<not> well_formed (replicate 5999 0x61 @ [0xD83D])"
    by (simp add: well_formed_replicate_plain plain is_high_surrogate_def)
  with cut wf show ?thesis by simp
qed

section \<open>Properties of the endpoint\<close>

lemma typeof_string: "js_typeof v = u16 ''string'' \<longleftrightarrow> (\<exists>t. v = JStr t)"
  by (cases v) (simp_all add: u16_def)

lemma POST_valid_ticket:
  assumes "member body (u16 ''ticket'') = JStr t" "t \<noteq> []" "length t \<le> MAX_TICKET"
  shows "POST_try e w (Inr body) =
     (case build_prompt e t (member body (u16 ''attachments'')) of
        Inl x \<Rightarrow> (Inl x, w)
      | Inr userPrompt \<Rightarrow>
          if or_empty (OPENAI_API_KEY e) = []
          then (Inr (Response 500 (ErrorBody (u16 ''OpenAI API key not configured''))), w)
          else run_extraction e w userPrompt)"
proof -
  from assms(1) have "body \<noteq> JNull" "body \<noteq> JUndefined"
    by auto
  with assms show ?thesis
    by (simp add: POST_try_def Let_def)
qed

text \<open>
  Claim C1. A run that reaches the primary call and gets a response whose cleaned text does
  not parse issues exactly one more call: the repair request, to the same model, whose user
  message is \<open>Fix this JSON:\<close>, a line feed and the cleaned text. The response of the
  repair call is cleaned the same way and parsed; when that fails too the run ends with
  status 500 and the message of the parse error, and the calls of the run are these two.
\<close>

theorem repair_issued_once:
  assumes ticket: "member body (u16 ''ticket'') = JStr t" "t \<noteq> []" "length t \<le> MAX_TICKET"
    and prompt: "build_prompt e t (member body (u16 ''attachments'')) = Inr p"
    and key: "or_empty (OPENAI_API_KEY e) \<noteq> []"
    and primary: "create e s (primary_request p) = (Inr r1, s1)"
    and cleaned: "c1 = strip_fences (or_empty r1)"
    and unparseable: "JSON_parse e c1 = Inl m1"
    and repair: "create e s1 (fix_request c1) = (out2, s2)"
  shows "snd (POST e (cs, s) (Inr body)) = (cs @ [primary_request p, fix_request c1], s2) \<and>
         user_content (fix_request c1) = u16 ''Fix this JSON:\<newline>'' @ c1 \<and>
         model (fix_request c1) = model (primary_request p) \<and>
         fst (POST e (cs, s) (Inr body)) =
           (case out2 of
              Inl x \<Rightarrow> Response 500 (ErrorBody (case x of ErrorObj m \<Rightarrow> m
                                                     | Thrown \<Rightarrow> u16 ''Analysis failed''))
            | Inr r2 \<Rightarrow>
                (case JSON_parse e (strip_fences (or_empty r2)) of
                   Inl m2 \<Rightarrow> Response 500 (ErrorBody m2)
                 | Inr a \<Rightarrow> Response 200 (AnalysisBody (NextResponse_json a))))"
proof -
  have "POST_try e (cs, s) (Inr body) = run_extraction e (cs, s) p"
    by (simp add: POST_valid_ticket [OF ticket] prompt key)
  moreover have "run_extraction e (cs, s) p =
      (case out2 of
         Inl x \<Rightarrow> (Inl x, (cs @ [primary_request p, fix_request c1], s2))
       | Inr r2 \<Rightarrow>
           (case JSON_parse e (strip_fences (or_empty r2)) of
              Inl m2 \<Rightarrow> (Inl (ErrorObj m2), (cs @ [primary_request p, fix_request c1], s2))
            | Inr a \<Rightarrow> (Inr (Response 200 (AnalysisBody (NextResponse_json a))),
                        (cs @ [primary_request p, fix_request c1], s2))))"
    using primary cleaned unparseable repair
    by (simp add: run_extraction_def call_def Let_def split: sum.splits)
  ultimately show ?thesis
    by (simp add: POST_def fix_request_def primary_request_def split: sum.splits exn.splits)
qed

lemma json_plain_unchanged: "json_plain a \<Longrightarrow> NextResponse_json a = a"
proof (induction a rule: NextResponse_json.induct)
  case (1 n)
  then show ?case by (cases n) simp_all
next
  case (2 xs)
  then show ?case by (auto simp: list_all_iff intro: map_idI)
next
  case (3 kvs)
  then have "filter (\<lambda>kv. snd kv \<noteq> JUndefined) kvs = kvs"
    by (auto simp: list_all_iff)
  with 3 show ?case by (auto simp: list_all_iff intro!: map_idI)
qed simp_all

text \<open>
  Claim C3, as amended. When the cleaned text of the primary response parses, the run ends
  with status 200, the primary call is the only call of the run, and the analysis of the
  response is the parsed value as \<open>JSON.stringify\<close> writes it: the parsed value itself
  whenever every number in it is finite and not negative zero.
\<close>

theorem parsed_without_repair:
  assumes ticket: "member body (u16 ''ticket'') = JStr t" "t \<noteq> []" "length t \<le> MAX_TICKET"
    and prompt: "build_prompt e t (member body (u16 ''attachments'')) = Inr p"
    and key: "or_empty (OPENAI_API_KEY e) \<noteq> []"
    and primary: "create e s (primary_request p) = (Inr r1, s1)"
    and parsed: "JSON_parse e (strip_fences (or_empty r1)) = Inr a"
  shows "POST e (cs, s) (Inr body) =
           (Response 200 (AnalysisBody (NextResponse_json a)), (cs @ [primary_request p], s1)) \<and>
         (json_plain a \<longrightarrow>
            POST e (cs, s) (Inr body) =
              (Response 200 (AnalysisBody a), (cs @ [primary_request p], s1)))"
proof -
  have "POST_try e (cs, s) (Inr body) = run_extraction e (cs, s) p"
    by (simp add: POST_valid_ticket [OF ticket] prompt key)
  moreover have "run_extraction e (cs, s) p =
      (Inr (Response 200 (AnalysisBody (NextResponse_json a))), (cs @ [primary_request p], s1))"
    using primary parsed by (simp add: run_extraction_def call_def Let_def)
  ultimately show ?thesis by (simp add: POST_def json_plain_unchanged)
qed

lemma undecodable_body_is_500:
  "POST e w (Inr JNull) = (Response 500 (ErrorBody (type_error e Destructure_body JNull)), w)"
  "POST e w (Inl (ErrorObj m)) = (Response 500 (ErrorBody m), w)"
  by (simp_all add: POST_def POST_try_def)

text \<open>
  Claim C2, as amended. When the body decodes to a JSON value other than \<open>null\<close> and its
  \<open>ticket\<close> is absent, is no string, is the empty string or has more than 10,000 code
  units, the response has status 400 and an error message, and no call is issued (the log
  of calls and the state of the service are as before).
\<close>

theorem invalid_ticket_rejected:
  assumes body: "body \<noteq> JNull" "body \<noteq> JUndefined"
    and invalid: "\<not> (\<exists>t. member body (u16 ''ticket'') = JStr t \<and> t \<noteq> [] \<and> length t \<le> MAX_TICKET)"
  shows "POST e w (Inr body) =
           (Response 400 (ErrorBody
              (if (\<exists>t. member body (u16 ''ticket'') = JStr t \<and> t \<noteq> [])
               then u16 ''Ticket description too long''
               else u16 ''Invalid ticket description'')), w)"
proof (cases "member body (u16 ''ticket'')")
  case (JStr t)
  with body invalid show ?thesis
    by (auto simp: POST_def POST_try_def Let_def)
qed (use body in \<open>simp_all add: POST_def POST_try_def Let_def u16_def\<close>)

lemma attachment_segment_json:
  "attachment_segment e (attachment_json a) =
     Inr (u16 ''ATTACHMENT: '' @ att_name a @ u16 '' ('' @ att_mime a @ u16 '')\<newline>'' @
          substring0 MAX_ATTACHMENT (att_text a) @ u16 ''\<newline>\<newline>'')"
  by (simp add: attachment_segment_def attachment_json_def u16_def)

lemma add_attachments_json:
  "add_attachments e p (map attachment_json as) =
     Inr (p @ concat (map (\<lambda>a. u16 ''ATTACHMENT: '' @ att_name a @ u16 '' ('' @ att_mime a @
                                 u16 '')\<newline>'' @ substring0 MAX_ATTACHMENT (att_text a) @
                                 u16 ''\<newline>\<newline>'') as))"
  by (induction as arbitrary: p) (simp_all add: attachment_segment_json)

text \<open>
  Claim C5. The user prompt is the ticket section followed by one section for each
  attachment, in order; the section of an attachment holds the first 6,000 code units of its
  text when the text is longer, and the whole text otherwise, whatever the other attachments
  are.
\<close>

theorem attachment_text_capped:
  "build_prompt e ticket (JArr (map attachment_json as)) =
     Inr (u16 ''TICKET:\<newline>'' @ ticket @ u16 ''\<newline>\<newline>'' @
          concat (map (\<lambda>a. u16 ''ATTACHMENT: '' @ att_name a @ u16 '' ('' @ att_mime a @
                             u16 '')\<newline>'' @
                             (if length (att_text a) > 6000 then take 6000 (att_text a)
                              else att_text a) @
                             u16 ''\<newline>\<newline>'') as))"
proof -
  have "substring0 MAX_ATTACHMENT t = (if length t > 6000 then take 6000 t else t)" for t
    by (simp add: substring0_def MAX_ATTACHMENT_def)
  then show ?thesis
    by (simp add: build_prompt_def add_attachments_json)
qed

lemma attachment_segment_error:
  "attachment_segment e att = Inl x \<Longrightarrow>
   \<exists>k v. (k = Read_text \<or> k = Call_substring \<or> k = To_primitive) \<and> x = ErrorObj (type_error e k v)"
  by (auto simp: attachment_segment_def split: if_splits jsval.splits option.splits)

lemma attachment_segment_no_text:
  "\<forall>s. member att (u16 ''text'') \<noteq> JStr s \<Longrightarrow> \<exists>x. attachment_segment e att = Inl x"
  by (auto simp: attachment_segment_def split: jsval.splits)

lemma add_attachments_throws:
  assumes "att \<in> set atts" and "\<forall>s. member att (u16 ''text'') \<noteq> JStr s"
  shows "\<exists>k v. (k = Read_text \<or> k = Call_substring \<or> k = To_primitive) \<and>
           add_attachments e p atts = Inl (ErrorObj (type_error e k v))"
  using assms(1)
proof (induction atts arbitrary: p)
  case Nil
  then show ?case by simp
next
  case (Cons a atts)
  show ?case
  proof (cases "attachment_segment e a")
    case (Inl x)
    with attachment_segment_error [OF Inl] show ?thesis by auto
  next
    case (Inr seg)
    with attachment_segment_no_text [OF assms(2), of e] Cons.prems have "att \<in> set atts"
      by auto
    from Cons.IH [OF this, of "p @ seg"] Inr show ?thesis by simp
  qed
qed

text \<open>
  Claim C10. With a valid ticket and an \<open>attachments\<close> array that has an element whose
  \<open>text\<close> is absent or no string, the \<open>TypeError\<close> thrown at line 42 is caught by the
  handler: the response has status 500 and the message of a \<open>TypeError\<close> of lines 42 and
  43 (that one, unless an earlier element throws first), not 400, and no call is issued.
\<close>

theorem malformed_attachment_is_500:
  assumes ticket: "member body (u16 ''ticket'') = JStr t" "t \<noteq> []" "length t \<le> MAX_TICKET"
    and atts: "member body (u16 ''attachments'') = JArr atts"
    and bad: "att \<in> set atts" "\<forall>s. member att (u16 ''text'') \<noteq> JStr s"
  shows "\<exists>k v. (k = Read_text \<or> k = Call_substring \<or> k = To_primitive) \<and>
           POST e w (Inr body) = (Response 500 (ErrorBody (type_error e k v)), w)"
proof -
  obtain k v where k: "k = Read_text \<or> k = Call_substring \<or> k = To_primitive"
    and thrown: "add_attachments e (u16 ''TICKET:\<newline>'' @ t @ u16 ''\<newline>\<newline>'') atts =
                 Inl (ErrorObj (type_error e k v))"
    using add_attachments_throws [OF bad] by blast
  have "POST_try e w (Inr body) = (Inl (ErrorObj (type_error e k v)), w)"
    by (simp add: POST_valid_ticket [OF ticket] atts build_prompt_def thrown)
  then have "POST e w (Inr body) = (Response 500 (ErrorBody (type_error e k v)), w)"
    by (simp add: POST_def)
  with k show ?thesis by blast
qed

section \<open>Concrete runs of the endpoint\<close>

lemma sample_ticket_valid: "sample_ticket \<noteq> []" "length sample_ticket \<le> MAX_TICKET"
  by (simp_all add: sample_ticket_def u16_def MAX_TICKET_def)

lemma request_body_ticket: "member (request_body t as) (u16 ''ticket'') = JStr t"
  by (simp add: request_body_def)

lemma request_body_attachments:
  "member (request_body t as) (u16 ''attachments'') = JArr (map attachment_json as)"
  by (simp add: request_body_def u16_def)

lemma sample_env_key: "or_empty (OPENAI_API_KEY (sample_env rs)) \<noteq> []"
  by (simp add: sample_env_def or_empty_def u16_def)

lemma build_prompt_no_attachments:
  "build_prompt e t (JArr []) = Inr (u16 ''TICKET:\<newline>'' @ t @ u16 ''\<newline>\<newline>'')"
  by (simp add: build_prompt_def)

text \<open>
  An instance of C1: both responses are unparseable, the second one inside a fence.
\<close>

theorem repair_issued_once_witness:
  "JSON_parse (sample_env [Some (u16 ''{oops''), Some (u16 ''```json\<newline>{still bad\<newline>```'')])
     (strip_fences (u16 ''{oops'')) = Inl (u16 ''Unexpected token'') \<and>
   POST (sample_env [Some (u16 ''{oops''), Some (u16 ''```json\<newline>{still bad\<newline>```'')]) ([], 0)
     (Inr (request_body sample_ticket [])) =
     (Response 500 (ErrorBody (u16 ''Unexpected token'')),
      ([primary_request (u16 ''TICKET:\<newline>'' @ sample_ticket @ u16 ''\<newline>\<newline>''),
        fix_request (u16 ''{oops'')], 2))"
proof -
  let ?rs = "[Some (u16 ''{oops''), Some (u16 ''```json\<newline>{still bad\<newline>```'')]"
  let ?e = "sample_env ?rs"
  let ?p = "u16 ''TICKET:\<newline>'' @ sample_ticket @ u16 ''\<newline>\<newline>''"
  have prompt: "build_prompt ?e sample_ticket (member (request_body sample_ticket []) (u16 ''attachments'')) = Inr ?p"
    by (simp add: request_body_attachments build_prompt_no_attachments)
  have primary: "create ?e 0 (primary_request ?p) = (Inr (Some (u16 ''{oops'')), 1)"
    by (simp add: sample_env_def scripted_def)
  have stripped: "strip_fences (u16 ''{oops'') = u16 ''{oops''"
    by (simp add: strip_fences_def strip_open_def starts_with_def fence_open_def
        close_match_def fence_to_end_def fence_def u16_def nl_def)
  then have cleaned: "u16 ''{oops'' = strip_fences (or_empty (Some (u16 ''{oops'')))"
    by (simp add: or_empty_def)
  have unparseable: "JSON_parse ?e (u16 ''{oops'') = Inl (u16 ''Unexpected token'')"
    by (simp add: sample_env_def sample_parse_def u16_def)
  have repair: "create ?e 1 (fix_request (u16 ''{oops'')) =
                  (Inr (Some (u16 ''```json\<newline>{still bad\<newline>```'')), 2)"
    by (simp add: sample_env_def scripted_def)
  have second: "JSON_parse ?e (strip_fences (or_empty (Some (u16 ''```json\<newline>{still bad\<newline>```'')))) =
                  Inl (u16 ''Unexpected token'')"
    by (simp add: sample_env_def sample_parse_def or_empty_def strip_fences_def strip_open_def
        starts_with_def fence_open_def close_match_def fence_to_end_def fence_def u16_def nl_def
        is_space_def)
  from repair_issued_once [OF request_body_ticket sample_ticket_valid
      prompt sample_env_key primary cleaned unparseable repair, of "[]"]
  have "POST ?e ([], 0) (Inr (request_body sample_ticket [])) =
          (Response 500 (ErrorBody (u16 ''Unexpected token'')),
           ([primary_request ?p, fix_request (u16 ''{oops'')], 2))"
    by (simp add: second prod_eq_iff)
  with unparseable stripped show ?thesis by simp
qed

text \<open>
  An instance of C3: the primary response is \<open>{}\<close> inside a \<open>json\<close> fence.
\<close>

theorem parsed_without_repair_witness:
  "json_plain (JObj []) \<and>
   POST (sample_env [Some (u16 ''```json\<newline>{}\<newline>```'')]) ([], 0)
     (Inr (request_body sample_ticket [])) =
     (Response 200 (AnalysisBody (JObj [])),
      ([primary_request (u16 ''TICKET:\<newline>'' @ sample_ticket @ u16 ''\<newline>\<newline>'')], 1))"
proof -
  let ?rs = "[Some (u16 ''```json\<newline>{}\<newline>```'')]"
  let ?e = "sample_env ?rs"
  let ?p = "u16 ''TICKET:\<newline>'' @ sample_ticket @ u16 ''\<newline>\<newline>''"
  have prompt: "build_prompt ?e sample_ticket (member (request_body sample_ticket []) (u16 ''attachments'')) = Inr ?p"
    by (simp add: request_body_attachments build_prompt_no_attachments)
  have primary: "create ?e 0 (primary_request ?p) = (Inr (Some (u16 ''```json\<newline>{}\<newline>```'')), 1)"
    by (simp add: sample_env_def scripted_def)
  have parsed: "JSON_parse ?e (strip_fences (or_empty (Some (u16 ''```json\<newline>{}\<newline>```'')))) =
                  Inr (JObj [])"
    by (simp add: sample_env_def sample_parse_def or_empty_def strip_fences_def strip_open_def
        starts_with_def fence_open_def close_match_def fence_to_end_def fence_def u16_def nl_def
        is_space_def)
  have plain: "json_plain (JObj [])" by simp
  from parsed_without_repair [OF request_body_ticket sample_ticket_valid
      prompt sample_env_key primary parsed, of "[]"] plain
  show ?thesis by simp
qed

text \<open>
  Claim C3 as stated fails for a response that holds a number too large for a double:
  \<open>{"a": 1e400}\<close> parses to an object whose \<open>a\<close> is \<open>Infinity\<close>, and the analysis of the
  response has \<open>null\<close> there.
\<close>

theorem infinite_number_returned_as_null:
  \<open>JSON_parse (sample_env [Some (u16 ''{"a": 1e400}'')]) (strip_fences (u16 ''{"a": 1e400}'')) =
     Inr (JObj [(u16 ''a'', JNum Infinity)]) \<and>
   POST (sample_env [Some (u16 ''{"a": 1e400}'')]) ([], 0) (Inr (request_body sample_ticket [])) =
     (Response 200 (AnalysisBody (JObj [(u16 ''a'', JNull)])),
      ([primary_request (u16 ''TICKET:\<newline>'' @ sample_ticket @ u16 ''\<newline>\<newline>'')], 1)) \<and>
   JObj [(u16 ''a'', JNull)] \<noteq> JObj [(u16 ''a'', JNum Infinity)]\<close>
proof -
  let ?r = \<open>u16 ''{"a": 1e400}''\<close>
  let ?e = "sample_env [Some ?r]"
  have stripped: "strip_fences ?r = ?r"
    by (simp add: strip_fences_def strip_open_def starts_with_def fence_open_def
        close_match_def fence_to_end_def fence_def u16_def nl_def)
  have parsed: "JSON_parse ?e ?r = Inr (JObj [(u16 ''a'', JNum Infinity)])"
    by (simp add: sample_env_def sample_parse_def u16_def)
  have "POST_try ?e ([], 0) (Inr (request_body sample_ticket [])) =
          run_extraction ?e ([], 0) (u16 ''TICKET:\<newline>'' @ sample_ticket @ u16 ''\<newline>\<newline>'')"
    by (simp add: POST_valid_ticket [OF request_body_ticket sample_ticket_valid]
        request_body_attachments build_prompt_no_attachments sample_env_key)
  moreover have "create ?e 0 rq = (Inr (Some ?r), 1)" for rq
    by (simp add: sample_env_def scripted_def)
  ultimately have "POST ?e ([], 0) (Inr (request_body sample_ticket [])) =
     (Response 200 (AnalysisBody (JObj [(u16 ''a'', JNull)])),
      ([primary_request (u16 ''TICKET:\<newline>'' @ sample_ticket @ u16 ''\<newline>\<newline>'')], 1))"
    by (simp add: POST_def run_extraction_def call_def or_empty_def stripped parsed)
  with stripped parsed show ?thesis by simp
qed

text \<open>
  Instances of C2: a body without \<open>ticket\<close>, one whose \<open>ticket\<close> is a number, one whose
  \<open>ticket\<close> has 10,001 code units.
\<close>

theorem invalid_ticket_rejected_witness:
  "POST (sample_env []) ([], 0) (Inr (JObj [(u16 ''attachments'', JArr [])])) =
     (Response 400 (ErrorBody (u16 ''Invalid ticket description'')), ([], 0)) \<and>
   POST (sample_env []) ([], 0) (Inr (JObj [(u16 ''ticket'', JNum (Finite 7))])) =
     (Response 400 (ErrorBody (u16 ''Invalid ticket description'')), ([], 0)) \<and>
   POST (sample_env []) ([], 0) (Inr (JObj [(u16 ''ticket'', JStr (replicate 10001 0x61))])) =
     (Response 400 (ErrorBody (u16 ''Ticket description too long'')), ([], 0))"
proof -
  let ?missing = "JObj [(u16 ''attachments'', JArr [])]"
  let ?number = "JObj [(u16 ''ticket'', JNum (Finite 7))]"
  let ?long = "JObj [(u16 ''ticket'', JStr (replicate 10001 0x61))]"
  have m: "member ?missing (u16 ''ticket'') = JUndefined"
    by (simp add: u16_def)
  have n: "member ?number (u16 ''ticket'') = JNum (Finite 7)"
    by simp
  have l: "member ?long (u16 ''ticket'') = JStr (replicate 10001 0x61)"
    by simp
  have "POST (sample_env []) ([], 0) (Inr ?missing) =
          (Response 400 (ErrorBody (u16 ''Invalid ticket description'')), ([], 0))"
    using invalid_ticket_rejected [of ?missing "sample_env []" "([], 0)"] by (simp add: m)
  moreover have "POST (sample_env []) ([], 0) (Inr ?number) =
          (Response 400 (ErrorBody (u16 ''Invalid ticket description'')), ([], 0))"
    using invalid_ticket_rejected [of ?number "sample_env []" "([], 0)"] by (simp add: n)
  moreover have "POST (sample_env []) ([], 0) (Inr ?long) =
          (Response 400 (ErrorBody (u16 ''Ticket description too long'')), ([], 0))"
    using invalid_ticket_rejected [of ?long "sample_env []" "([], 0)"]
    by (simp add: l MAX_TICKET_def)
  ultimately show ?thesis by simp
qed

text \<open>
  Claim C2 as stated fails for the body \<open>null\<close>: the request has no \<open>ticket\<close>, the
  destructuring of line 28 throws, and the response has status 500.
\<close>

theorem null_body_is_500:
  "POST (sample_env []) ([], 0) (Inr JNull) =
     (Response 500 (ErrorBody (u16 ''TypeError'')), ([], 0)) \<and>
   status (fst (POST (sample_env []) ([], 0) (Inr JNull))) \<noteq> 400"
  by (simp add: POST_def POST_try_def sample_env_def)

text \<open>
  An instance of C5: a text of 6,001 code units beside a short one.
\<close>

theorem attachment_text_capped_witness:
  "build_prompt (sample_env []) (u16 ''t'')
     (JArr (map attachment_json
        [\<lparr>att_name = u16 ''a.log'', att_mime = u16 ''text/plain'', att_text = replicate 6001 0x61\<rparr>,
         \<lparr>att_name = u16 ''b.txt'', att_mime = u16 ''text/plain'', att_text = u16 ''short''\<rparr>])) =
   Inr (u16 ''TICKET:\<newline>t\<newline>\<newline>'' @
        u16 ''ATTACHMENT: a.log (text/plain)\<newline>'' @ replicate 6000 0x61 @ u16 ''\<newline>\<newline>'' @
        u16 ''ATTACHMENT: b.txt (text/plain)\<newline>short\<newline>\<newline>'')"
  using attachment_text_capped [of "sample_env []" "u16 ''t''"
      "[\<lparr>att_name = u16 ''a.log'', att_mime = u16 ''text/plain'', att_text = replicate 6001 0x61\<rparr>,
        \<lparr>att_name = u16 ''b.txt'', att_mime = u16 ''text/plain'', att_text = u16 ''short''\<rparr>]"]
  by (simp add: u16_def)

text \<open>
  An instance of C10: the only attachment has a name and no text.
\<close>

theorem malformed_attachment_is_500_witness:
  "POST (sample_env []) ([], 0)
     (Inr (JObj [(u16 ''ticket'', JStr sample_ticket),
                 (u16 ''attachments'', JArr [JObj [(u16 ''name'', JStr (u16 ''a.log''))]])])) =
     (Response 500 (ErrorBody (u16 ''TypeError'')), ([], 0))"
proof -
  let ?att = "JObj [(u16 ''name'', JStr (u16 ''a.log''))]"
  let ?body = "JObj [(u16 ''ticket'', JStr sample_ticket), (u16 ''attachments'', JArr [?att])]"
  have t: "member ?body (u16 ''ticket'') = JStr sample_ticket" by simp
  have a: "member ?body (u16 ''attachments'') = JArr [?att]" by (simp add: u16_def)
  have bad: "?att \<in> set [?att]" "\<forall>s. member ?att (u16 ''text'') \<noteq> JStr s"
    by (simp_all add: u16_def)
  from malformed_attachment_is_500 [OF t sample_ticket_valid a bad, of "sample_env []" "([], 0)"]
  show ?thesis by (auto simp: sample_env_def)
qed

section \<open>Properties of the normalisation of uploads\<close>












section \<open>Properties of the delimited-text export\<close>

lemma quote_escaped_plain: "dq \<notin> set cell \<Longrightarrow> quote_escaped cell = [dq] @ cell @ [dq]"
proof -
  assume "dq \<notin> set cell"
  then have "concat (map (\<lambda>c. if c = dq then [dq, dq] else [c]) cell) = cell"
    by (induction cell) auto
  then show ?thesis by (simp add: quote_escaped_def)
qed

lemma priority_text_plain: "dq \<notin> set (or_empty (map_option priority_text p))"
proof (cases p)
  case None
  then show ?thesis by (simp add: or_empty_def)
next
  case (Some q)
  then show ?thesis by (cases q) (simp_all add: or_empty_def u16_def dq_def)
qed

lemma spec_action_row_cells:
  "spec_action_row a =
     [title a, or_empty (owner a), or_empty (map_option priority_text (priority a)),
      or_empty (due_window a)]"
  by (simp add: spec_action_row_def or_empty_def split: option.splits priority.splits)

lemma header_plain:
  "map quote_escaped [u16 ''Title'', u16 ''Owner'', u16 ''Priority'', u16 ''Due Window''] =
   map (\<lambda>cell. [dq] @ cell @ [dq]) [u16 ''Title'', u16 ''Owner'', u16 ''Priority'', u16 ''Due Window'']"
  by (simp add: quote_escaped_plain u16_def dq_def)

lemma action_row_plain:
  "plain_action a \<Longrightarrow>
   map quote_escaped (spec_action_row a) = map (\<lambda>cell. [dq] @ cell @ [dq]) (spec_action_row a)"
  by (simp add: spec_action_row_cells plain_action_def quote_escaped_plain priority_text_plain)

text \<open>
  Claim C8, as amended. The export is the header row followed by one row per action, in
  order, the rows separated by a line feed; every field is enclosed in double quotes and an
  absent owner, priority or due window is the empty string between its quotes; with no
  action the export is the header row alone. The export is the quote-escaped one of the
  specification whenever no field holds a double quote (a double quote inside a field is
  written as it is, not doubled).
\<close>

theorem csv_export_rows:
  "downloadCSV (Some r) =
     Some (join [nl]
       (u16 ''\"Title\",\"Owner\",\"Priority\",\"Due Window\"'' #
        map (\<lambda>a. [dq] @ title a @ [dq] @ u16 '','' @
                  [dq] @ or_empty (owner a) @ [dq] @ u16 '','' @
                  [dq] @ or_empty (map_option priority_text (priority a)) @ [dq] @ u16 '','' @
                  [dq] @ or_empty (due_window a) @ [dq]) (actions r))) \<and>
   (actions r = [] \<longrightarrow>
      downloadCSV (Some r) = Some (u16 ''\"Title\",\"Owner\",\"Priority\",\"Due Window\"'')) \<and>
   (list_all plain_action (actions r) \<longrightarrow> downloadCSV (Some r) = Some (spec_csv r))"
proof -
  have shape: "downloadCSV (Some r) =
     Some (join [nl]
       (u16 ''\"Title\",\"Owner\",\"Priority\",\"Due Window\"'' #
        map (\<lambda>a. [dq] @ title a @ [dq] @ u16 '','' @
                  [dq] @ or_empty (owner a) @ [dq] @ u16 '','' @
                  [dq] @ or_empty (map_option priority_text (priority a)) @ [dq] @ u16 '','' @
                  [dq] @ or_empty (due_window a) @ [dq]) (actions r)))"
    by (simp add: downloadCSV_def csv_cells_def o_def u16_def dq_def)
  have refine: "downloadCSV (Some r) = Some (spec_csv r)" if plain: "list_all plain_action (actions r)"
  proof -
    let ?hdr = "[u16 ''Title'', u16 ''Owner'', u16 ''Priority'', u16 ''Due Window'']"
    have cells: "csv_cells r = ?hdr # map spec_action_row (actions r)"
      by (simp add: csv_cells_def spec_action_row_cells)
    have "map (map quote_escaped) (map spec_action_row (actions r)) =
          map (map (\<lambda>cell. [dq] @ cell @ [dq])) (map spec_action_row (actions r))"
      using plain by (simp add: list_all_iff action_row_plain)
    with header_plain have "map (map quote_escaped) (csv_cells r) =
          map (map (\<lambda>cell. [dq] @ cell @ [dq])) (csv_cells r)"
      unfolding cells by simp
    then have "map (join (u16 '','')) (map (map quote_escaped) (csv_cells r)) =
          map (join (u16 '','')) (map (map (\<lambda>cell. [dq] @ cell @ [dq])) (csv_cells r))"
      by (rule arg_cong)
    then have "map (\<lambda>row. join (u16 '','') (map quote_escaped row)) (csv_cells r) =
          map (\<lambda>row. join (u16 '','') (map (\<lambda>cell. [dq] @ cell @ [dq]) row)) (csv_cells r)"
      by (simp only: map_map o_def)
    then have "join [nl] (map (\<lambda>row. join (u16 '','') (map quote_escaped row)) (csv_cells r)) =
          join [nl] (map (\<lambda>row. join (u16 '','') (map (\<lambda>cell. [dq] @ cell @ [dq]) row))
                      (csv_cells r))"
      by (rule arg_cong)
    moreover have "spec_csv r =
          join [nl] (map (\<lambda>row. join (u16 '','') (map quote_escaped row)) (csv_cells r))"
      by (simp only: spec_csv_def cells)
    moreover have "downloadCSV (Some r) =
          Some (join [nl] (map (\<lambda>row. join (u16 '','') (map (\<lambda>cell. [dq] @ cell @ [dq]) row))
                            (csv_cells r)))"
      by (simp only: downloadCSV_def option.case)
    ultimately show ?thesis by (simp only:)
  qed
  from shape refine show ?thesis by simp
qed

text \<open>
  An instance of C8: two actions, the second with no optional field, and a report with no
  action.
\<close>

theorem csv_export_rows_witness:
  \<open>list_all plain_action
     [\<lparr>title = u16 ''Rotate keys'', owner = Some (u16 ''SecOps''), priority = Some P1,
       due_window = Some (u16 ''24h'')\<rparr>,
      \<lparr>title = u16 ''Review logs'', owner = None, priority = None, due_window = None\<rparr>] \<and>
   downloadCSV (Some (sample_report
     [\<lparr>title = u16 ''Rotate keys'', owner = Some (u16 ''SecOps''), priority = Some P1,
       due_window = Some (u16 ''24h'')\<rparr>,
      \<lparr>title = u16 ''Review logs'', owner = None, priority = None, due_window = None\<rparr>])) =
     Some (u16 ''"Title","Owner","Priority","Due Window"\<newline>"Rotate keys","SecOps","P1","24h"\<newline>"Review logs","","",""'') \<and>
   downloadCSV (Some (sample_report
     [\<lparr>title = u16 ''Rotate keys'', owner = Some (u16 ''SecOps''), priority = Some P1,
       due_window = Some (u16 ''24h'')\<rparr>,
      \<lparr>title = u16 ''Review logs'', owner = None, priority = None, due_window = None\<rparr>])) =
     Some (spec_csv (sample_report
     [\<lparr>title = u16 ''Rotate keys'', owner = Some (u16 ''SecOps''), priority = Some P1,
       due_window = Some (u16 ''24h'')\<rparr>,
      \<lparr>title = u16 ''Review logs'', owner = None, priority = None, due_window = None\<rparr>])) \<and>
   downloadCSV (Some (sample_report [])) = Some (u16 ''"Title","Owner","Priority","Due Window"'')\<close>
proof -
  let ?as = "[\<lparr>title = u16 ''Rotate keys'', owner = Some (u16 ''SecOps''), priority = Some P1,
                due_window = Some (u16 ''24h'')\<rparr>,
              \<lparr>title = u16 ''Review logs'', owner = None, priority = None, due_window = None\<rparr>]"
  have plain: "list_all plain_action ?as"
    by (simp add: plain_action_def or_empty_def u16_def dq_def)
  have a: "actions (sample_report xs) = xs" for xs
    by (simp add: sample_report_def)
  note two = csv_export_rows [of "sample_report ?as", unfolded a]
  note none = csv_export_rows [of "sample_report []", unfolded a]
  from two have rendered: \<open>downloadCSV (Some (sample_report ?as)) =
     Some (u16 ''"Title","Owner","Priority","Due Window"\<newline>"Rotate keys","SecOps","P1","24h"\<newline>"Review logs","","",""'')\<close>
    by (simp add: or_empty_def u16_def dq_def nl_def)
  from two plain have spec: "downloadCSV (Some (sample_report ?as)) = Some (spec_csv (sample_report ?as))"
    by blast
  from none have empty: \<open>downloadCSV (Some (sample_report [])) =
     Some (u16 ''"Title","Owner","Priority","Due Window"'')\<close>
    by simp
  from plain rendered spec empty show ?thesis by (simp only: simp_thms)
qed

text \<open>
  Claim C8 as stated fails for a title that holds a double quote: the field is enclosed in
  quotes and the quotes inside it are not escaped.
\<close>

theorem csv_quote_not_escaped:
  \<open>downloadCSV (Some (sample_report
     [\<lparr>title = u16 ''Reset "admin" password'', owner = None, priority = None, due_window = None\<rparr>])) =
     Some (u16 ''"Title","Owner","Priority","Due Window"\<newline>"Reset "admin" password","","",""'') \<and>
   spec_csv (sample_report
     [\<lparr>title = u16 ''Reset "admin" password'', owner = None, priority = None, due_window = None\<rparr>]) =
     u16 ''"Title","Owner","Priority","Due Window"\<newline>"Reset ""admin"" password","","",""'' \<and>
   downloadCSV (Some (sample_report
     [\<lparr>title = u16 ''Reset "admin" password'', owner = None, priority = None, due_window = None\<rparr>])) \<noteq>
   Some (spec_csv (sample_report
     [\<lparr>title = u16 ''Reset "admin" password'', owner = None, priority = None, due_window = None\<rparr>]))\<close>
  by (simp add: downloadCSV_def csv_cells_def spec_csv_def spec_action_row_def quote_escaped_def
      sample_report_def or_empty_def u16_def dq_def nl_def)

section \<open>The paginated export at the page boundary\<close>

text \<open>
  Claim C7 against the code. A canvas of 360 by 534 pixels (or of 2400 by 3560) scales to
  a height of 267 mm, exactly the usable height of one page. The loop runs while
  \<open>heightLeft >= 0\<close> and \<open>heightLeft\<close> is 0 after the first page, so a second page is
  added, with the image 267 mm higher; one pixel less gives one page, and a height of
  exactly two pages gives three. All the numbers involved are integers, which doubles hold
  exactly.
\<close>

theorem trailing_page_at_exact_height:
  "downloadPDF_pages 360 534 = Some [15, - 252] \<and> downloadPDF_pages 360 533 = Some [15] \<and>
   downloadPDF_pages 2400 3560 = Some [15, - 252] \<and>
   downloadPDF_pages 360 1068 = Some [15, - 252, - 519]"
  by (simp add: downloadPDF_pages_def Let_def imgWidth_def pageHeight_def margin_def
      more_pages.simps)

lemma length_more_pages:
  "length (more_pages H h) = (if h \<ge> 0 then nat \<lfloor>h / pageHeight\<rfloor> + 1 else 0)"
proof (induction H h rule: more_pages.induct)
  case (1 H h)
  show ?case
  proof (cases "h \<ge> 0")
    case False
    then show ?thesis by (simp add: more_pages.simps)
  next
    case True
    note IH = "1.IH" [OF True]
    show ?thesis
    proof (cases "h - pageHeight \<ge> 0")
      case False
      then have "h / pageHeight < 1" by (simp add: pageHeight_def margin_def)
      moreover have "0 \<le> h / pageHeight" using True by (simp add: pageHeight_def margin_def)
      ultimately have "\<lfloor>h / pageHeight\<rfloor> = 0" by linarith
      with True False IH show ?thesis by (subst more_pages.simps) simp
    next
      case ge: True
      have "(h - pageHeight) / pageHeight = h / pageHeight - 1"
        by (simp add: pageHeight_def margin_def field_simps)
      then have fl: "\<lfloor>(h - pageHeight) / pageHeight\<rfloor> = \<lfloor>h / pageHeight\<rfloor> - 1" by simp
      have "1 \<le> h / pageHeight" using ge by (simp add: pageHeight_def margin_def)
      then have "1 \<le> \<lfloor>h / pageHeight\<rfloor>" by linarith
      then have eq: "Suc (nat (\<lfloor>h / pageHeight\<rfloor> - 1)) = nat \<lfloor>h / pageHeight\<rfloor>"
        by linarith
      from True ge IH fl show ?thesis by (subst more_pages.simps) (simp add: eq)
    qed
  qed
qed

text \<open>
  The same for every whole number of pages: a scaled height of \<open>n\<close> usable page heights
  gives \<open>n + 1\<close> pages.
\<close>

lemma pages_at_whole_multiple:
  assumes "0 < cw" and "1 \<le> n" and "real ch * imgWidth = real n * pageHeight * real cw"
  shows "\<exists>ps. downloadPDF_pages cw ch = Some ps \<and> length ps = n + 1"
proof -
  have "real ch * imgWidth / real cw = real n * pageHeight"
    using assms by (simp add: field_simps)
  moreover have "(real n * pageHeight - pageHeight) / pageHeight = real n - 1"
    by (simp add: pageHeight_def margin_def field_simps)
  moreover have "real n * pageHeight - pageHeight \<ge> 0"
    using assms(2) by (simp add: pageHeight_def margin_def)
  moreover have "nat \<lfloor>real n - 1\<rfloor> = n - 1"
    using assms(2) by (simp add: nat_diff_distrib' flip: of_nat_diff)
  ultimately show ?thesis
    using assms(1,2) by (simp add: downloadPDF_pages_def Let_def length_more_pages)
qed

end
